theory Spec2Isabelle
  imports Main
begin

section \<open>Data model of taskmanager.py\<close>

text \<open>
  A \<open>datetime\<close> is a point on the naive timeline, counted in microseconds (the
  resolution of Python's datetime) from \<open>datetime.min\<close>, which is
  0001-01-01 00:00:00; \<open>datetime.max\<close> is 9999-12-31 23:59:59.999999. A
  \<open>timedelta\<close> is a difference of two such points. Adding a timedelta to a
  datetime raises OverflowError when the sum leaves that range. Within one
  operation every call of \<open>datetime.now()\<close> is taken to give the same reading, the
  parameter \<open>now\<close>.
\<close>

type_synonym datetime = int

datatype error = ValueError | NameError | EOFError | OverflowError

definition datetime_min :: datetime where
  "datetime_min = 0"

definition datetime_max :: datetime where
  "datetime_max = 315537897599999999"

definition timedelta_minutes :: "int \<Rightarrow> int" where
  "timedelta_minutes n = n * 60 * 1000000"

definition datetime_add :: "datetime \<Rightarrow> int \<Rightarrow> error + datetime" where
  "datetime_add d td =
     (if datetime_min \<le> d + td \<and> d + td \<le> datetime_max then Inr (d + td)
      else Inl OverflowError)"

text \<open>A checklist item is the dict \<open>{"text": ..., "done": ...}\<close>.\<close>

record bullet =
  text_b :: string
  done_b :: bool

text \<open>
  The attributes of a \<open>Task\<close> object. \<open>created_date\<close> and \<open>expiry_update\<close> are
  attributes that the constructor does not set: \<open>None\<close> is the attribute absent.
  \<open>status\<close> and \<open>priority\<close> are plain strings in the source.
\<close>

record task =
  id_t :: int
  title :: string
  description :: string
  expiry_date :: datetime
  priority :: string
  bullets :: "bullet list"
  status :: string
  created_date :: "datetime option"
  expiry_update :: "datetime option"

definition Task :: "int \<Rightarrow> string \<Rightarrow> string \<Rightarrow> datetime \<Rightarrow> string \<Rightarrow> bullet list \<Rightarrow> task" where
  "Task i t d e p bs =
     \<lparr>id_t = i, title = t, description = d, expiry_date = e, priority = p,
      bullets = bs, status = ''not started'', created_date = None, expiry_update = None\<rparr>"

section \<open>Status engine\<close>

definition is_expired :: "datetime \<Rightarrow> task \<Rightarrow> bool" where
  "is_expired now t = (now > expiry_date t)"

text \<open>
  \<open>is_deletable\<close> first adds five minutes to the expiry date, which raises for an
  expiry date in the last five minutes of the range, and then compares.
\<close>

definition is_deletable :: "datetime \<Rightarrow> task \<Rightarrow> error + bool" where
  "is_deletable now t =
     (case datetime_add (expiry_date t) (timedelta_minutes 5) of
        Inl e \<Rightarrow> Inl e
      | Inr limit \<Rightarrow> Inr (now > limit))"

text \<open>
  \<open>all_done\<close> is \<open>all(b["done"] for b in self.bullets)\<close>. \<open>any_done\<close> is
  \<open>any(["done"] for b in self.bullets)\<close>: its element is the one-element list
  \<open>["done"]\<close>, whose truth value is that it is not empty, whatever \<open>b\<close> is.
  The four cases of the \<open>match\<close> are tried in the order of the source.
\<close>

definition update_status :: "datetime \<Rightarrow> task \<Rightarrow> task" where
  "update_status now t =
     (let is_exp = is_expired now t;
          all_done = list_all (\<lambda>b. done_b b) (bullets t);
          any_done = list_ex (\<lambda>b. [''done''] \<noteq> []) (bullets t)
      in if is_exp then t\<lparr>status := ''expired''\<rparr>
         else if all_done then t\<lparr>status := ''completed''\<rparr>
         else if any_done then t\<lparr>status := ''in progress...''\<rparr>
         else t\<lparr>status := ''not started''\<rparr>)"

definition lock_check :: "task \<Rightarrow> bool" where
  "lock_check t = (status t \<in> set [''completed'', ''expired''])"

section \<open>Persistence codec\<close>

text \<open>
  \<open>isoformat\<close> and \<open>fromisoformat\<close> are the library's pair for naive datetimes: the
  text written for an instant reads back as that instant. The text itself is kept
  abstract.
\<close>

datatype iso_text = Iso datetime

definition isoformat :: "datetime \<Rightarrow> iso_text" where
  "isoformat d = Iso d"

fun fromisoformat :: "iso_text \<Rightarrow> datetime" where
  "fromisoformat (Iso d) = d"

text \<open>
  One object of the JSON document: each of the eight keys is present with a value,
  or absent (\<open>None\<close>). \<open>dict_get v dflt\<close> is \<open>d.get(key, dflt)\<close>.
\<close>

record task_dict =
  k_id :: "int option"
  k_title :: "string option"
  k_description :: "string option"
  k_created_date :: "iso_text option"
  k_expiry_date :: "iso_text option"
  k_priority :: "string option"
  k_status :: "string option"
  k_bullets :: "bullet list option"

definition dict_get :: "'a option \<Rightarrow> 'a \<Rightarrow> 'a" where
  "dict_get v dflt = (case v of None \<Rightarrow> dflt | Some x \<Rightarrow> x)"

text \<open>
  The manager object: the task list in memory, and the content of the file
  \<open>tasks.json\<close> (\<open>None\<close> when the file is absent or empty).
\<close>

record manager =
  tasks :: "task list"
  tasks_json :: "task_dict list option"

definition to_dict :: "datetime \<Rightarrow> task list \<Rightarrow> task_dict list" where
  "to_dict now ts =
     map (\<lambda>t. \<lparr>k_id = Some (id_t t),
                k_title = Some (title t),
                k_description = Some (description t),
                k_created_date = Some (isoformat (dict_get (created_date t) now)),
                k_expiry_date = Some (isoformat (expiry_date t)),
                k_priority = Some (priority t),
                k_status = Some (status t),
                k_bullets = Some (bullets t)\<rparr>) ts"

definition task_of_dict :: "datetime \<Rightarrow> task_dict \<Rightarrow> task" where
  "task_of_dict now d =
     (let task = Task (dict_get (k_id d) 0)
                      (dict_get (k_title d) ''Untitleed'')
                      (dict_get (k_description d) ''no description'')
                      (fromisoformat (dict_get (k_expiry_date d) (isoformat now)))
                      (dict_get (k_priority d) ''low'')
                      (dict_get (k_bullets d) []);
          task = task\<lparr>created_date :=
                   Some (fromisoformat (dict_get (k_created_date d) (isoformat now)))\<rparr>;
          task = task\<lparr>status := dict_get (k_status d) ''not started''\<rparr>
      in task)"

text \<open>
  \<open>from_dict\<close> is two nested loops, both \<open>for d in data\<close>: the inner one builds and
  appends a task for every object of the document, and the outer one runs it once
  per object of the document.
\<close>

fun from_dict_inner :: "datetime \<Rightarrow> task_dict list \<Rightarrow> task list \<Rightarrow> task list" where
  "from_dict_inner now [] acc = acc"
| "from_dict_inner now (d # ds) acc = from_dict_inner now ds (acc @ [task_of_dict now d])"

fun from_dict_outer ::
  "datetime \<Rightarrow> task_dict list \<Rightarrow> task_dict list \<Rightarrow> task list \<Rightarrow> task list" where
  "from_dict_outer now [] data acc = acc"
| "from_dict_outer now (d # ds) data acc =
     from_dict_outer now ds data (from_dict_inner now data acc)"

definition from_dict :: "datetime \<Rightarrow> task_dict list \<Rightarrow> task list" where
  "from_dict now data = from_dict_outer now data data []"

definition load :: "datetime \<Rightarrow> manager \<Rightarrow> task list" where
  "load now m = (case tasks_json m of None \<Rightarrow> [] | Some data \<Rightarrow> from_dict now data)"

definition save :: "datetime \<Rightarrow> manager \<Rightarrow> manager" where
  "save now m = m\<lparr>tasks_json := Some (to_dict now (tasks m))\<rparr>"

text \<open>
  What a task reads back as after the store was saved at time \<open>now\<close>: the
  document holds a \<open>created_date\<close> for every task and no \<open>expiry_update\<close>.
\<close>

definition reloaded :: "datetime \<Rightarrow> task \<Rightarrow> task" where
  "reloaded now t = t\<lparr>created_date := Some (dict_get (created_date t) now), expiry_update := None\<rparr>"

section \<open>Task store\<close>

text \<open>
  An operation returns the lines it printed, the exception that left it (if any),
  and the manager as it stands then.
\<close>

datatype signal =
    Remove_duplicate_tasks nat
  | Task_added
  | Task_is_locked
  | Task_updated
  | Task_ID_not_found
  | Please_enter_a_valid_ID_number
  | No_tasks_to_delete
  | Task_deleted
  | Task_can_not_be_deleted_yet

type_synonym outcome = "signal list \<times> error option \<times> manager"

subsection \<open>Deduplication\<close>

text \<open>
  Strings are sequences of code points below 256. \<open>isspace\<close> and \<open>lower\<close> are
  Python's \<open>str.isspace\<close> and \<open>str.lower\<close> on that range.
\<close>

definition isspace :: "char \<Rightarrow> bool" where
  "isspace c =
     (let n = (of_char c :: nat)
      in (9 \<le> n \<and> n \<le> 13) \<or> (28 \<le> n \<and> n \<le> 32) \<or> n = 133 \<or> n = 160)"

definition strip :: "string \<Rightarrow> string" where
  "strip s = rev (dropWhile isspace (rev (dropWhile isspace s)))"

definition lower_char :: "char \<Rightarrow> char" where
  "lower_char c =
     (let n = (of_char c :: nat)
      in if (65 \<le> n \<and> n \<le> 90) \<or> (192 \<le> n \<and> n \<le> 222 \<and> n \<noteq> 215)
         then char_of (n + 32) else c)"

definition lower :: "string \<Rightarrow> string" where
  "lower s = map lower_char s"

definition task_hash :: "task \<Rightarrow> string \<times> string \<times> datetime" where
  "task_hash t = (lower (strip (title t)), lower (strip (description t)), expiry_date t)"

fun remove_duplicates_loop ::
  "task list \<Rightarrow> task list \<Rightarrow> nat \<Rightarrow> (string \<times> string \<times> datetime) set \<Rightarrow> task list \<times> nat" where
  "remove_duplicates_loop [] unique_tasks duplicates_count seen_tasks =
     (unique_tasks, duplicates_count)"
| "remove_duplicates_loop (t # ts) unique_tasks duplicates_count seen_tasks =
     (if task_hash t \<notin> seen_tasks
      then remove_duplicates_loop ts (unique_tasks @ [t]) duplicates_count
             (insert (task_hash t) seen_tasks)
      else remove_duplicates_loop ts unique_tasks (duplicates_count + 1) seen_tasks)"

definition remove_duplicates :: "manager \<Rightarrow> outcome" where
  "remove_duplicates m =
     (case remove_duplicates_loop (tasks m) [] 0 {} of
        (unique_tasks, duplicates_count) \<Rightarrow>
          (if duplicates_count \<noteq> 0 then [Remove_duplicate_tasks duplicates_count] else [],
           None,
           m\<lparr>tasks := unique_tasks\<rparr>))"

text \<open>
  The constructor: load, deduplicate; \<open>self.save\<close> names the method without
  calling it, so nothing is written.
\<close>

definition TaskManager :: "datetime \<Rightarrow> task_dict list option \<Rightarrow> outcome" where
  "TaskManager now content =
     remove_duplicates
       \<lparr>tasks = load now \<lparr>tasks = [], tasks_json = content\<rparr>, tasks_json = content\<rparr>"

text \<open>
  The wording of the specification, to compare \<open>remove_duplicates\<close> with: the dedup
  key of a task is its trimmed, lowercased title, its trimmed, lowercased
  description and its expiry timestamp; keep the first task of every key, in
  store order.
\<close>

definition dedup_key :: "task \<Rightarrow> string \<times> string \<times> datetime" where
  "dedup_key t = (lower (strip (title t)), lower (strip (description t)), expiry_date t)"

fun first_per_key :: "('a \<Rightarrow> 'k) \<Rightarrow> 'a list \<Rightarrow> 'a list" where
  "first_per_key key [] = []"
| "first_per_key key (t # ts) = t # first_per_key key (filter (\<lambda>u. key u \<noteq> key t) ts)"

subsection \<open>Adding\<close>

text \<open>\<open>py_max xs dflt\<close> is \<open>max(xs, default=dflt)\<close>.\<close>

fun py_max :: "int list \<Rightarrow> int \<Rightarrow> int" where
  "py_max [] dflt = dflt"
| "py_max (x # xs) dflt = fold max xs x"

definition get_next_id :: "task list \<Rightarrow> int" where
  "get_next_id ts = (if ts = [] then 1 else py_max (map id_t ts) 0 + 1)"

text \<open>
  \<open>add_task\<close> reads title, description, priority and expiry, then loops over the
  lines typed at the bullet prompt (\<open>inputs\<close>; an empty line ends the loop, and
  \<open>input\<close> raises EOFError when no line is left). The statements that build and
  append the task stand inside that loop, after the \<open>append\<close> of the bullet, so
  they run once per bullet. Every task built in one call holds the same list
  object \<open>bullets\<close>: an \<open>append\<close> to it shows in all of them, which is why the
  tasks built so far in the call (\<open>new\<close>) are kept apart from the tasks that were
  there before (\<open>old\<close>). \<open>manager.save\<close> names the method without calling it.
  \<open>expiry\<close> is what \<open>strptime\<close> made of the typed text, \<open>None\<close> when it raised.
\<close>

fun add_task_loop ::
  "string \<Rightarrow> string \<Rightarrow> datetime \<Rightarrow> string \<Rightarrow> string list \<Rightarrow> bullet list \<Rightarrow>
   task list \<Rightarrow> task list \<Rightarrow> signal list \<Rightarrow> signal list \<times> error option \<times> task list" where
  "add_task_loop ttl desc expiry prio [] bs old new out = (out, Some EOFError, old @ new)"
| "add_task_loop ttl desc expiry prio (txt # inputs) bs old new out =
     (if txt = [] then (out, None, old @ new)
      else
        (let bs' = bs @ [\<lparr>text_b = txt, done_b = False\<rparr>];
             new' = map (\<lambda>t. t\<lparr>bullets := bs'\<rparr>) new;
             task_id = get_next_id (old @ new');
             task = Task task_id ttl desc expiry prio bs'
         in add_task_loop ttl desc expiry prio inputs bs' old (new' @ [task])
              (out @ [Task_added])))"

definition add_task ::
  "string \<Rightarrow> string \<Rightarrow> string \<Rightarrow> datetime option \<Rightarrow> string list \<Rightarrow> manager \<Rightarrow> outcome" where
  "add_task ttl desc prio expiry inputs m =
     (case expiry of
        None \<Rightarrow> ([], Some ValueError, m)
      | Some e \<Rightarrow>
          (case add_task_loop ttl desc e prio inputs [] (tasks m) [] [] of
             (out, err, ts) \<Rightarrow> (out, err, m\<lparr>tasks := ts\<rparr>)))"

subsection \<open>Editing\<close>

text \<open>
  \<open>typed_id\<close> is what \<open>int(input(...))\<close> made of the typed text, \<open>None\<close> when it
  raised ValueError. \<open>new_expiry\<close> is what \<open>strptime\<close> with the format
  \<open>"%Y-%m_%d %H:%M"\<close> made of the typed text, \<open>None\<close> when it raised ValueError.
  The parsed value is stored in the attribute \<open>expiry_update\<close>. \<open>seen\<close> holds the
  tasks the loop has passed, with their status recomputed.
\<close>

fun edit_task_loop ::
  "datetime \<Rightarrow> int \<Rightarrow> string \<Rightarrow> string \<Rightarrow> datetime option \<Rightarrow> manager \<Rightarrow>
   task list \<Rightarrow> task list \<Rightarrow> outcome" where
  "edit_task_loop now task_id new_title new_desc new_expiry m seen [] =
     ([Task_ID_not_found], None, m\<lparr>tasks := seen\<rparr>)"
| "edit_task_loop now task_id new_title new_desc new_expiry m seen (t # rest) =
     (let task = update_status now t in
      if id_t task = task_id then
        (if lock_check task then ([Task_is_locked], None, m\<lparr>tasks := seen @ task # rest\<rparr>)
         else
           (let task = task\<lparr>title := new_title\<rparr>;
                task = task\<lparr>description := new_desc\<rparr>
            in case new_expiry of
                 None \<Rightarrow> ([], Some ValueError, m\<lparr>tasks := seen @ task # rest\<rparr>)
               | Some e \<Rightarrow>
                   (let task = task\<lparr>expiry_update := Some e\<rparr>
                    in ([Task_updated], None, save now (m\<lparr>tasks := seen @ task # rest\<rparr>)))))
      else edit_task_loop now task_id new_title new_desc new_expiry m (seen @ [task]) rest)"

definition edit_task ::
  "datetime \<Rightarrow> int option \<Rightarrow> string \<Rightarrow> string \<Rightarrow> datetime option \<Rightarrow> manager \<Rightarrow> outcome" where
  "edit_task now typed_id new_title new_desc new_expiry m =
     (case typed_id of
        None \<Rightarrow> ([], Some ValueError, m)
      | Some task_id \<Rightarrow>
          edit_task_loop now task_id new_title new_desc new_expiry m [] (tasks m))"

subsection \<open>Completing a bullet\<close>

text \<open>
  The body of \<open>complete_bullet\<close> is one \<open>while True\<close> loop. Its first statement
  is \<open>try: task_id = int(input(...)); break\<close>, so a typed number leaves the loop,
  and nothing follows the loop: the function returns. Everything else (finding
  the task, the lock check, the bullet selection) stands inside the loop after the
  \<open>try\<close> statement and is reached only from the \<open>except ValueError\<close> branch, where
  \<open>task_id\<close> has no value: reading it (in the generator that looks the task up, or
  in the message for a task not found when the store is empty) raises NameError.
\<close>

definition complete_bullet :: "int option \<Rightarrow> manager \<Rightarrow> outcome" where
  "complete_bullet typed_id m =
     (case typed_id of
        Some task_id \<Rightarrow> ([], None, m)
      | None \<Rightarrow> ([Please_enter_a_valid_ID_number], Some NameError, m))"

subsection \<open>Deleting\<close>

text \<open>\<open>pop xs i\<close> is the list after \<open>xs.pop(i)\<close>, for an index in range.\<close>

definition pop :: "'a list \<Rightarrow> nat \<Rightarrow> 'a list" where
  "pop xs i = take i xs @ drop (Suc i) xs"

text \<open>
  The loop of \<open>delete_task\<close> over the index \<open>i\<close>. An exception raised by
  \<open>is_deletable\<close> leaves the function before \<open>pop\<close> and \<open>save\<close>.
\<close>

function delete_task_loop :: "datetime \<Rightarrow> int \<Rightarrow> manager \<Rightarrow> nat \<Rightarrow> outcome" where
  "delete_task_loop now task_id m i =
     (if i < length (tasks m) then
        (if id_t (tasks m ! i) = task_id then
           (case is_deletable now (tasks m ! i) of
              Inl e \<Rightarrow> ([], Some e, m)
            | Inr deletable \<Rightarrow>
                (if deletable
                 then ([Task_deleted], None, save now (m\<lparr>tasks := pop (tasks m) i\<rparr>))
                 else ([Task_can_not_be_deleted_yet], None, m)))
         else delete_task_loop now task_id m (i + 1))
      else ([Task_ID_not_found], None, m))"
  by pat_completeness auto
termination
  by (relation "measure (\<lambda>(now, task_id, m, i). length (tasks m) - i)") auto

definition delete_task :: "datetime \<Rightarrow> int option \<Rightarrow> manager \<Rightarrow> outcome" where
  "delete_task now typed_id m =
     (case tasks m of
        [] \<Rightarrow> ([No_tasks_to_delete], None, m)
      | _ # _ \<Rightarrow>
          (case typed_id of
             None \<Rightarrow> ([], Some ValueError, m)
           | Some task_id \<Rightarrow> delete_task_loop now task_id m 0))"

text \<open>
  \<open>cleanup\<close> builds the list of the tasks that are not deletable, asking
  \<open>is_deletable\<close> of each task in store order; an exception raised there leaves the
  function before the list is assigned and before \<open>save\<close>.
\<close>

fun cleanup_filter :: "datetime \<Rightarrow> task list \<Rightarrow> error + task list" where
  "cleanup_filter now [] = Inr []"
| "cleanup_filter now (t # ts) =
     (case is_deletable now t of
        Inl e \<Rightarrow> Inl e
      | Inr deletable \<Rightarrow>
          (case cleanup_filter now ts of
             Inl e \<Rightarrow> Inl e
           | Inr kept \<Rightarrow> Inr (if \<not> deletable then t # kept else kept)))"

definition cleanup :: "datetime \<Rightarrow> manager \<Rightarrow> outcome" where
  "cleanup now m =
     (case cleanup_filter now (tasks m) of
        Inl e \<Rightarrow> ([], Some e, m)
      | Inr kept \<Rightarrow> ([], None, save now (m\<lparr>tasks := kept\<rparr>)))"

section \<open>Properties of the status engine\<close>

text \<open>
  C6: whenever the current time is past the expiry date, the recomputed status is
  \<open>expired\<close>, whatever the checklist holds.
\<close>

theorem update_status_expired:
  "expiry_date t < now \<Longrightarrow> status (update_status now t) = ''expired''"
  by (simp add: update_status_def is_expired_def)

theorem update_status_expired_witness:
  "expiry_date (Task 1 ''A'' ''past'' 100 ''low''
       [\<lparr>text_b = ''x'', done_b = True\<rparr>, \<lparr>text_b = ''y'', done_b = True\<rparr>]) < 101
   \<and> status (update_status 101 (Task 1 ''A'' ''past'' 100 ''low''
       [\<lparr>text_b = ''x'', done_b = True\<rparr>, \<lparr>text_b = ''y'', done_b = True\<rparr>])) = ''expired''"
proof -
  have past: "expiry_date (Task 1 ''A'' ''past'' 100 ''low''
       [\<lparr>text_b = ''x'', done_b = True\<rparr>, \<lparr>text_b = ''y'', done_b = True\<rparr>]) < 101"
    by (simp add: Task_def)
  from past update_status_expired [OF past] show ?thesis by simp
qed

text \<open>
  C9 as stated fails at the end of the datetime range: for an expiry date of
  9999-12-31 23:58 (119 999 999 microseconds before \<open>datetime.max\<close>) the sum
  \<open>expiry_date + timedelta(minutes=5)\<close> is out of range, so \<open>is_deletable\<close> raises
  OverflowError and is neither true nor false, at any current time.
\<close>

theorem is_deletable_overflow_counterexample:
  "is_deletable 315537897599999999
     (Task 1 ''A'' ''d'' 315537897480000000 ''low'' [\<lparr>text_b = ''x'', done_b = False\<rparr>])
     = Inl OverflowError
   \<and> is_deletable 315537897599999999
     (Task 1 ''A'' ''d'' 315537897480000000 ''low'' [\<lparr>text_b = ''x'', done_b = False\<rparr>])
     \<noteq> Inr (315537897599999999 >
          expiry_date (Task 1 ''A'' ''d'' 315537897480000000 ''low''
            [\<lparr>text_b = ''x'', done_b = False\<rparr>]) + timedelta_minutes 5)"
  by (simp add: is_deletable_def datetime_add_def datetime_min_def datetime_max_def
      timedelta_minutes_def Task_def)

text \<open>
  C9, amended: for a task whose expiry date plus five minutes is still a datetime
  (not after \<open>datetime.max\<close>), \<open>is_deletable\<close> returns true exactly when the current
  time is more than five minutes (300 000 000 microseconds) past the expiry date,
  and false at exactly five minutes past it. For a later expiry date it raises
  OverflowError.
\<close>

theorem is_deletable_iff:
  "(datetime_min \<le> expiry_date t \<and> expiry_date t + timedelta_minutes 5 \<le> datetime_max \<longrightarrow>
      is_deletable now t = Inr (now - expiry_date t > 300000000)
      \<and> is_deletable (expiry_date t + timedelta_minutes 5) t = Inr False)
   \<and> (datetime_max < expiry_date t + timedelta_minutes 5 \<longrightarrow>
      is_deletable now t = Inl OverflowError)"
  by (auto simp: is_deletable_def datetime_add_def datetime_min_def timedelta_minutes_def)

theorem is_deletable_iff_witness:
  "datetime_min \<le> expiry_date (Task 1 ''A'' ''d'' 100 ''low'' [])
   \<and> expiry_date (Task 1 ''A'' ''d'' 100 ''low'' []) + timedelta_minutes 5 \<le> datetime_max
   \<and> is_deletable 300000101 (Task 1 ''A'' ''d'' 100 ''low'' []) = Inr True
   \<and> is_deletable 300000100 (Task 1 ''A'' ''d'' 100 ''low'' []) = Inr False
   \<and> datetime_max < expiry_date (Task 2 ''B'' ''d'' 315537897300000000 ''low'' [])
        + timedelta_minutes 5
   \<and> is_deletable 500 (Task 2 ''B'' ''d'' 315537897300000000 ''low'' []) = Inl OverflowError"
proof -
  let ?a = "Task 1 ''A'' ''d'' 100 ''low'' []"
  let ?b = "Task 2 ''B'' ''d'' 315537897300000000 ''low'' []"
  have h1: "datetime_min \<le> expiry_date ?a"
    by (simp add: Task_def datetime_min_def)
  have h2: "expiry_date ?a + timedelta_minutes 5 \<le> datetime_max"
    by (simp add: Task_def datetime_max_def timedelta_minutes_def)
  have h3: "datetime_max < expiry_date ?b + timedelta_minutes 5"
    by (simp add: Task_def datetime_max_def timedelta_minutes_def)
  have e: "expiry_date ?a = 100" by (simp add: Task_def)
  from is_deletable_iff [of ?a 300000101] h1 h2
  have r1: "is_deletable 300000101 ?a = Inr (300000101 - expiry_date ?a > 300000000)"
    by blast
  from is_deletable_iff [of ?a 300000100] h1 h2
  have r2: "is_deletable 300000100 ?a = Inr (300000100 - expiry_date ?a > 300000000)"
    by blast
  from is_deletable_iff [of ?b 500] h3
  have r3: "is_deletable 500 ?b = Inl OverflowError"
    by blast
  from h1 h2 h3 r1 r2 r3 e show ?thesis by simp
qed

text \<open>
  C4, evaluated on the code: a task with no checklist item whose expiry date lies
  ahead gets the status \<open>completed\<close>, because \<open>all\<close> over no item is true.
\<close>

theorem update_status_empty_checklist:
  "\<not> is_expired 50 (Task 1 ''A'' ''d'' 100 ''low'' [])
   \<and> status (update_status 50 (Task 1 ''A'' ''d'' 100 ''low'' [])) = ''completed''"
  by (simp add: update_status_def is_expired_def Task_def)

text \<open>
  C5, evaluated on the code: an unexpired task with one checklist item that is not
  done gets the status \<open>in progress...\<close>, not \<open>not started\<close>.
\<close>

theorem update_status_none_done:
  "\<not> is_expired 50 (Task 1 ''A'' ''d'' 100 ''low'' [\<lparr>text_b = ''x'', done_b = False\<rparr>])
   \<and> status (update_status 50 (Task 1 ''A'' ''d'' 100 ''low''
        [\<lparr>text_b = ''x'', done_b = False\<rparr>])) = ''in progress...''"
  by (simp add: update_status_def is_expired_def Task_def)

text \<open>
  The status that \<open>update_status\<close> computes, in closed form: the case that sets
  \<open>not started\<close> is never taken, since a checklist that is not all done has an item,
  and then \<open>any_done\<close> is true.
\<close>

lemma status_update_status:
  "status (update_status now t) =
     (if expiry_date t < now then ''expired''
      else if list_all done_b (bullets t) then ''completed''
      else ''in progress...'')"
proof (cases "bullets t")
  case Nil
  then show ?thesis by (simp add: update_status_def is_expired_def)
next
  case (Cons b bs)
  then show ?thesis by (simp add: update_status_def is_expired_def Let_def)
qed

lemma update_status_never_not_started:
  "status (update_status now t) \<noteq> ''not started''"
  by (simp add: status_update_status)

section \<open>Deduplication keeps the first task of every key\<close>

lemma filter_insert_key:
  "filter (\<lambda>u. key u \<notin> insert k s) ts = filter (\<lambda>u. key u \<noteq> k) (filter (\<lambda>u. key u \<notin> s) ts)"
  by (induction ts) auto

lemma loop_first_per_key:
  "fst (remove_duplicates_loop ts u c s) =
     u @ first_per_key task_hash (filter (\<lambda>t. task_hash t \<notin> s) ts)"
proof (induction ts arbitrary: u c s)
  case Nil
  then show ?case by simp
next
  case (Cons t ts)
  show ?case
  proof (cases "task_hash t \<in> s")
    case True
    then show ?thesis by (simp add: Cons.IH)
  next
    case False
    then have "fst (remove_duplicates_loop (t # ts) u c s) =
        fst (remove_duplicates_loop ts (u @ [t]) c (insert (task_hash t) s))"
      by simp
    also have "\<dots> = (u @ [t]) @ first_per_key task_hash
        (filter (\<lambda>u. task_hash u \<notin> insert (task_hash t) s) ts)"
      by (rule Cons.IH)
    also have "\<dots> = (u @ [t]) @ first_per_key task_hash
        (filter (\<lambda>u. task_hash u \<noteq> task_hash t) (filter (\<lambda>u. task_hash u \<notin> s) ts))"
      by (simp only: filter_insert_key)
    also have "\<dots> = u @ first_per_key task_hash (filter (\<lambda>u. task_hash u \<notin> s) (t # ts))"
      using False by simp
    finally show ?thesis .
  qed
qed

lemma loop_count:
  "snd (remove_duplicates_loop ts u c s) + length (fst (remove_duplicates_loop ts u c s)) =
     c + length u + length ts"
  by (induction ts arbitrary: u c s) auto

lemma first_per_key_distinct:
  "distinct (map key ts) \<Longrightarrow> first_per_key key ts = ts"
proof (induction ts)
  case Nil
  then show ?case by simp
next
  case (Cons t ts)
  then have "filter (\<lambda>u. key u \<noteq> key t) ts = ts"
    by (auto simp: filter_id_conv image_iff)
  with Cons show ?case by simp
qed

lemma filter_keys_of_filter:
  "filter (\<lambda>u. key u \<notin> key ` set (filter (\<lambda>u. key u \<noteq> k) ts)) (filter (\<lambda>u. key u \<noteq> k) ys)
     = filter (\<lambda>u. key u \<noteq> k) (filter (\<lambda>u. key u \<notin> key ` set ts) ys)"
  by (induction ys) (auto simp: image_iff)

lemma first_per_key_append:
  "first_per_key key (xs @ ys) =
     first_per_key key xs @ first_per_key key (filter (\<lambda>u. key u \<notin> key ` set xs) ys)"
proof (induction key xs arbitrary: ys rule: first_per_key.induct)
  case (1 key)
  then show ?case by simp
next
  case (2 key t ts)
  let ?f = "filter (\<lambda>u. key u \<noteq> key t)"
  have "first_per_key key ((t # ts) @ ys) = t # first_per_key key (?f ts @ ?f ys)"
    by simp
  also have "\<dots> = t # first_per_key key (?f ts) @ first_per_key key
      (filter (\<lambda>u. key u \<notin> key ` set (?f ts)) (?f ys))"
    by (simp only: 2)
  also have "\<dots> = t # first_per_key key (?f ts) @ first_per_key key
      (?f (filter (\<lambda>u. key u \<notin> key ` set ts) ys))"
    by (simp only: filter_keys_of_filter)
  also have "\<dots> = first_per_key key (t # ts) @ first_per_key key
      (filter (\<lambda>u. key u \<notin> key ` set (t # ts)) ys)"
  proof -
    have "filter (\<lambda>u. key u \<notin> key ` set (t # ts)) ys =
        ?f (filter (\<lambda>u. key u \<notin> key ` set ts) ys)"
      by (induction ys) auto
    then show ?thesis by simp
  qed
  finally show ?case .
qed

lemma first_per_key_two:
  assumes "key a = key b" and "distinct (map key (xs @ a # ys @ zs))"
  shows "first_per_key key (xs @ a # ys @ b # zs) = xs @ a # ys @ zs"
proof -
  let ?p = "xs @ a # ys"
  from assms(2) have dp: "distinct (map key ?p)" and dz: "distinct (map key zs)"
    and disj: "key ` set ?p \<inter> key ` set zs = {}"
    by auto
  from disj have "\<forall>u\<in>set zs. key u \<notin> key ` set ?p"
    by blast
  then have fz: "filter (\<lambda>u. key u \<notin> key ` set ?p) zs = zs"
    by (simp only: filter_id_conv)
  have "key b \<in> key ` set ?p" using assms(1) by (auto simp: image_iff)
  then have fb: "filter (\<lambda>u. key u \<notin> key ` set ?p) (b # zs) = zs"
    using fz by simp
  have "first_per_key key (?p @ b # zs) =
      first_per_key key ?p @ first_per_key key (filter (\<lambda>u. key u \<notin> key ` set ?p) (b # zs))"
    by (rule first_per_key_append)
  also have "\<dots> = ?p @ zs"
    by (simp only: fb first_per_key_distinct[OF dp] first_per_key_distinct[OF dz])
  finally show ?thesis by simp
qed

lemma set_first_per_key: "set (first_per_key key ts) \<subseteq> set ts"
  by (induction key ts rule: first_per_key.induct) auto

lemma distinct_first_per_key: "distinct (map key (first_per_key key ts))"
proof (induction key ts rule: first_per_key.induct)
  case (1 key)
  then show ?case by simp
next
  case (2 key t ts)
  have "set (first_per_key key (filter (\<lambda>u. key u \<noteq> key t) ts))
      \<subseteq> set (filter (\<lambda>u. key u \<noteq> key t) ts)"
    by (rule set_first_per_key)
  then have "key t \<notin> key ` set (first_per_key key (filter (\<lambda>u. key u \<noteq> key t) ts))"
    by auto
  with 2 show ?case by simp
qed

lemma find_filter_key:
  "key x \<noteq> k \<Longrightarrow>
   find (\<lambda>u. key u = key x) (filter (\<lambda>u. key u \<noteq> k) ts) = find (\<lambda>u. key u = key x) ts"
  by (induction ts) auto

lemma find_first_per_key:
  "x \<in> set (first_per_key key ts) \<Longrightarrow> find (\<lambda>u. key u = key x) ts = Some x"
proof (induction key ts rule: first_per_key.induct)
  case (1 key)
  then show ?case by simp
next
  case (2 key t ts)
  show ?case
  proof (cases "x = t")
    case True
    then show ?thesis by simp
  next
    case False
    with 2(2) have mem: "x \<in> set (first_per_key key (filter (\<lambda>u. key u \<noteq> key t) ts))"
      by simp
    with set_first_per_key[of key "filter (\<lambda>u. key u \<noteq> key t) ts"]
    have ne: "key x \<noteq> key t" by auto
    from 2(1)[OF mem] have "find (\<lambda>u. key u = key x) ts = Some x"
      by (simp only: find_filter_key[of key x "key t" ts, OF ne])
    with ne show ?thesis by auto
  qed
qed

lemma remove_duplicates_first_per_key:
  "remove_duplicates m =
     ((if length (first_per_key task_hash (tasks m)) \<noteq> length (tasks m)
       then [Remove_duplicate_tasks
               (length (tasks m) - length (first_per_key task_hash (tasks m)))]
       else []),
      None,
      m\<lparr>tasks := first_per_key task_hash (tasks m)\<rparr>)"
proof -
  obtain u c where loop: "remove_duplicates_loop (tasks m) [] 0 {} = (u, c)"
    by (cases "remove_duplicates_loop (tasks m) [] 0 {}")
  from loop_first_per_key[of "tasks m" "[]" 0 "{}"] loop
  have u: "u = first_per_key task_hash (tasks m)" by simp
  from loop_count[of "tasks m" "[]" 0 "{}"] loop
  have "c + length u = length (tasks m)" by simp
  then have c: "c = length (tasks m) - length u" and le: "length u \<le> length (tasks m)"
    by auto
  show ?thesis
    using c le by (auto simp: remove_duplicates_def loop u)
qed

lemma task_hash_dedup_key: "task_hash = dedup_key"
  by (simp add: fun_eq_iff task_hash_def dedup_key_def)

lemma first_per_key_keeps_new:
  assumes "\<forall>u\<in>set xs. key u \<noteq> key t"
  shows "t \<in> set (first_per_key key (xs @ t # ys))"
proof -
  from assms have "key t \<notin> key ` set xs" by auto
  then have "filter (\<lambda>u. key u \<notin> key ` set xs) (t # ys) =
      t # filter (\<lambda>u. key u \<notin> key ` set xs) ys"
    by simp
  then have "first_per_key key (xs @ t # ys) =
      first_per_key key xs @ first_per_key key (t # filter (\<lambda>u. key u \<notin> key ` set xs) ys)"
    by (simp only: first_per_key_append)
  then show ?thesis by simp
qed

lemma tasks_remove_duplicates:
  "tasks (snd (snd (remove_duplicates m))) = first_per_key dedup_key (tasks m)"
  by (simp add: remove_duplicates_first_per_key task_hash_dedup_key)

text \<open>
  C8 as stated fails when a third task shares the key: the store below holds two
  tasks with equal trimmed, lowercased title, equal trimmed, lowercased
  description and equal expiry, and \<open>remove_duplicates\<close> removes two tasks and
  reports two removals, not one.
\<close>

theorem remove_duplicates_three_counterexample:
  "lower (strip (title (Task 1 '' Buy Milk'' ''Two litres'' 100 ''low'' [])))
     = lower (strip (title (Task 2 ''buy milk  '' '' two LITRES'' 100 ''high'' [])))
   \<and> lower (strip (description (Task 1 '' Buy Milk'' ''Two litres'' 100 ''low'' [])))
     = lower (strip (description (Task 2 ''buy milk  '' '' two LITRES'' 100 ''high'' [])))
   \<and> expiry_date (Task 1 '' Buy Milk'' ''Two litres'' 100 ''low'' [])
     = expiry_date (Task 2 ''buy milk  '' '' two LITRES'' 100 ''high'' [])
   \<and> remove_duplicates
        \<lparr>tasks = [Task 1 '' Buy Milk'' ''Two litres'' 100 ''low'' [],
                  Task 2 ''buy milk  '' '' two LITRES'' 100 ''high'' [],
                  Task 3 ''BUY MILK'' ''two litres '' 100 ''low'' []],
         tasks_json = None\<rparr>
     = ([Remove_duplicate_tasks 2], None,
        \<lparr>tasks = [Task 1 '' Buy Milk'' ''Two litres'' 100 ''low'' []], tasks_json = None\<rparr>)"
proof -
  let ?a = "Task 1 '' Buy Milk'' ''Two litres'' 100 ''low'' []"
  let ?b = "Task 2 ''buy milk  '' '' two LITRES'' 100 ''high'' []"
  let ?c = "Task 3 ''BUY MILK'' ''two litres '' 100 ''low'' []"
  have h1: "lower (strip (title ?a)) = lower (strip (title ?b))" by code_simp
  have h2: "lower (strip (description ?a)) = lower (strip (description ?b))" by code_simp
  have h3: "expiry_date ?a = expiry_date ?b" by (simp add: Task_def)
  have kb: "task_hash ?b = task_hash ?a" by code_simp
  have kc: "task_hash ?c = task_hash ?a" by code_simp
  have "remove_duplicates_loop [?a, ?b, ?c] [] 0 {} = ([?a], 2)"
    by (simp add: kb kc)
  then have r: "remove_duplicates \<lparr>tasks = [?a, ?b, ?c], tasks_json = None\<rparr> =
      ([Remove_duplicate_tasks 2], None, \<lparr>tasks = [?a], tasks_json = None\<rparr>)"
    by (simp add: remove_duplicates_def)
  from h1 h2 h3 r show ?thesis by simp
qed

text \<open>
  C8, amended: \<open>remove_duplicates\<close> leaves in the store exactly the first task of
  every dedup key (trimmed, lowercased title; trimmed, lowercased description;
  expiry timestamp), in store order, and reports the number of tasks it removed.
  The tasks kept have pairwise different keys; each is the first task of the store
  whose three key fields equal its own; and a task that differs from every earlier
  task in one of the three key fields is kept. In particular, when two tasks of
  the store have equal key fields and the keys of the store are otherwise pairwise
  different, exactly the later of the two is removed and one removal is reported.
\<close>

theorem remove_duplicates_keeps_first:
  "remove_duplicates m =
     ((if length (first_per_key dedup_key (tasks m)) \<noteq> length (tasks m)
       then [Remove_duplicate_tasks
               (length (tasks m) - length (first_per_key dedup_key (tasks m)))]
       else []),
      None,
      m\<lparr>tasks := first_per_key dedup_key (tasks m)\<rparr>)
   \<and> distinct (map dedup_key (tasks (snd (snd (remove_duplicates m)))))
   \<and> (\<forall>k \<in> set (tasks (snd (snd (remove_duplicates m)))).
         find (\<lambda>u. lower (strip (title u)) = lower (strip (title k))
                  \<and> lower (strip (description u)) = lower (strip (description k))
                  \<and> expiry_date u = expiry_date k) (tasks m) = Some k)
   \<and> (tasks m = xs @ t # ys
        \<and> (\<forall>u \<in> set xs. lower (strip (title u)) \<noteq> lower (strip (title t))
                       \<or> lower (strip (description u)) \<noteq> lower (strip (description t))
                       \<or> expiry_date u \<noteq> expiry_date t)
      \<longrightarrow> t \<in> set (tasks (snd (snd (remove_duplicates m)))))
   \<and> (lower (strip (title a)) = lower (strip (title b))
        \<and> lower (strip (description a)) = lower (strip (description b))
        \<and> expiry_date a = expiry_date b
        \<and> distinct (map dedup_key (xs @ a # ys @ zs))
        \<and> tasks m = xs @ a # ys @ b # zs
      \<longrightarrow> remove_duplicates m = ([Remove_duplicate_tasks 1], None, m\<lparr>tasks := xs @ a # ys @ zs\<rparr>))"
proof (intro conjI impI ballI)
  show "remove_duplicates m =
     ((if length (first_per_key dedup_key (tasks m)) \<noteq> length (tasks m)
       then [Remove_duplicate_tasks
               (length (tasks m) - length (first_per_key dedup_key (tasks m)))]
       else []),
      None,
      m\<lparr>tasks := first_per_key dedup_key (tasks m)\<rparr>)"
    by (simp only: remove_duplicates_first_per_key task_hash_dedup_key)
next
  show "distinct (map dedup_key (tasks (snd (snd (remove_duplicates m)))))"
    by (simp only: tasks_remove_duplicates distinct_first_per_key)
next
  fix k assume "k \<in> set (tasks (snd (snd (remove_duplicates m))))"
  then have "k \<in> set (first_per_key dedup_key (tasks m))"
    by (simp only: tasks_remove_duplicates)
  then have "find (\<lambda>u. dedup_key u = dedup_key k) (tasks m) = Some k"
    by (rule find_first_per_key)
  then show "find (\<lambda>u. lower (strip (title u)) = lower (strip (title k))
                  \<and> lower (strip (description u)) = lower (strip (description k))
                  \<and> expiry_date u = expiry_date k) (tasks m) = Some k"
    by (simp add: dedup_key_def)
next
  assume h: "tasks m = xs @ t # ys
        \<and> (\<forall>u \<in> set xs. lower (strip (title u)) \<noteq> lower (strip (title t))
                       \<or> lower (strip (description u)) \<noteq> lower (strip (description t))
                       \<or> expiry_date u \<noteq> expiry_date t)"
  then have "\<forall>u\<in>set xs. dedup_key u \<noteq> dedup_key t"
    by (simp add: dedup_key_def)
  then have "t \<in> set (first_per_key dedup_key (xs @ t # ys))"
    by (rule first_per_key_keeps_new)
  with h show "t \<in> set (tasks (snd (snd (remove_duplicates m))))"
    by (simp only: tasks_remove_duplicates)
next
  assume h: "lower (strip (title a)) = lower (strip (title b))
        \<and> lower (strip (description a)) = lower (strip (description b))
        \<and> expiry_date a = expiry_date b
        \<and> distinct (map dedup_key (xs @ a # ys @ zs))
        \<and> tasks m = xs @ a # ys @ b # zs"
  then have key: "dedup_key a = dedup_key b"
    by (simp add: dedup_key_def)
  from h have d: "distinct (map dedup_key (xs @ a # ys @ zs))" by blast
  from h have ts: "tasks m = xs @ a # ys @ b # zs" by blast
  have fpk: "first_per_key dedup_key (tasks m) = xs @ a # ys @ zs"
    unfolding ts by (rule first_per_key_two[OF key d])
  have "remove_duplicates m =
     ((if length (first_per_key dedup_key (tasks m)) \<noteq> length (tasks m)
       then [Remove_duplicate_tasks
               (length (tasks m) - length (first_per_key dedup_key (tasks m)))]
       else []),
      None,
      m\<lparr>tasks := first_per_key dedup_key (tasks m)\<rparr>)"
    by (simp only: remove_duplicates_first_per_key task_hash_dedup_key)
  then show "remove_duplicates m = ([Remove_duplicate_tasks 1], None, m\<lparr>tasks := xs @ a # ys @ zs\<rparr>)"
    by (simp add: fpk) (simp add: ts)
qed

theorem remove_duplicates_keeps_first_witness:
  "lower (strip (title (Task 1 '' Buy Milk'' ''Two litres'' 100 ''low'' [])))
     = lower (strip (title (Task 2 ''buy milk  '' '' two LITRES'' 100 ''high'' [])))
   \<and> lower (strip (description (Task 1 '' Buy Milk'' ''Two litres'' 100 ''low'' [])))
     = lower (strip (description (Task 2 ''buy milk  '' '' two LITRES'' 100 ''high'' [])))
   \<and> expiry_date (Task 1 '' Buy Milk'' ''Two litres'' 100 ''low'' [])
     = expiry_date (Task 2 ''buy milk  '' '' two LITRES'' 100 ''high'' [])
   \<and> distinct (map dedup_key
        [Task 1 '' Buy Milk'' ''Two litres'' 100 ''low'' [],
         Task 3 ''Call mom'' ''Two litres'' 100 ''low'' [],
         Task 4 ''Buy milk'' ''Three litres'' 100 ''low'' [],
         Task 5 ''Buy milk'' ''Two litres'' 200 ''low'' []])
   \<and> remove_duplicates
        \<lparr>tasks = [Task 1 '' Buy Milk'' ''Two litres'' 100 ''low'' [],
                  Task 2 ''buy milk  '' '' two LITRES'' 100 ''high'' [],
                  Task 3 ''Call mom'' ''Two litres'' 100 ''low'' [],
                  Task 4 ''Buy milk'' ''Three litres'' 100 ''low'' [],
                  Task 5 ''Buy milk'' ''Two litres'' 200 ''low'' []],
         tasks_json = None\<rparr>
     = ([Remove_duplicate_tasks 1], None,
        \<lparr>tasks = [Task 1 '' Buy Milk'' ''Two litres'' 100 ''low'' [],
                  Task 3 ''Call mom'' ''Two litres'' 100 ''low'' [],
                  Task 4 ''Buy milk'' ''Three litres'' 100 ''low'' [],
                  Task 5 ''Buy milk'' ''Two litres'' 200 ''low'' []],
         tasks_json = None\<rparr>)
   \<and> lower (strip (title (Task 1 '' Buy Milk'' ''Two litres'' 100 ''low'' [])))
       \<noteq> lower (strip (title (Task 3 ''Call mom'' ''Two litres'' 100 ''low'' [])))
   \<and> lower (strip (title (Task 2 ''buy milk  '' '' two LITRES'' 100 ''high'' [])))
       \<noteq> lower (strip (title (Task 3 ''Call mom'' ''Two litres'' 100 ''low'' [])))
   \<and> Task 3 ''Call mom'' ''Two litres'' 100 ''low'' []
       \<in> set (tasks (snd (snd (remove_duplicates
           \<lparr>tasks = [Task 1 '' Buy Milk'' ''Two litres'' 100 ''low'' [],
                     Task 2 ''buy milk  '' '' two LITRES'' 100 ''high'' [],
                     Task 3 ''Call mom'' ''Two litres'' 100 ''low'' [],
                     Task 4 ''Buy milk'' ''Three litres'' 100 ''low'' [],
                     Task 5 ''Buy milk'' ''Two litres'' 200 ''low'' []],
            tasks_json = None\<rparr>))))
   \<and> find (\<lambda>u. lower (strip (title u))
                  = lower (strip (title (Task 1 '' Buy Milk'' ''Two litres'' 100 ''low'' [])))
              \<and> lower (strip (description u))
                  = lower (strip (description (Task 1 '' Buy Milk'' ''Two litres'' 100 ''low'' [])))
              \<and> expiry_date u = expiry_date (Task 1 '' Buy Milk'' ''Two litres'' 100 ''low'' []))
         [Task 1 '' Buy Milk'' ''Two litres'' 100 ''low'' [],
          Task 2 ''buy milk  '' '' two LITRES'' 100 ''high'' [],
          Task 3 ''Call mom'' ''Two litres'' 100 ''low'' [],
          Task 4 ''Buy milk'' ''Three litres'' 100 ''low'' [],
          Task 5 ''Buy milk'' ''Two litres'' 200 ''low'' []]
       = Some (Task 1 '' Buy Milk'' ''Two litres'' 100 ''low'' [])"
proof -
  let ?a = "Task 1 '' Buy Milk'' ''Two litres'' 100 ''low'' []"
  let ?b = "Task 2 ''buy milk  '' '' two LITRES'' 100 ''high'' []"
  let ?c = "Task 3 ''Call mom'' ''Two litres'' 100 ''low'' []"
  let ?d = "Task 4 ''Buy milk'' ''Three litres'' 100 ''low'' []"
  let ?e = "Task 5 ''Buy milk'' ''Two litres'' 200 ''low'' []"
  let ?m = "\<lparr>tasks = [?a, ?b, ?c, ?d, ?e], tasks_json = None\<rparr>"
  have h1: "lower (strip (title ?a)) = lower (strip (title ?b))" by code_simp
  have h2: "lower (strip (description ?a)) = lower (strip (description ?b))" by code_simp
  have h3: "expiry_date ?a = expiry_date ?b" by (simp add: Task_def)
  have h4: "distinct (map dedup_key ([] @ ?a # [] @ [?c, ?d, ?e]))" by code_simp
  have h5: "tasks ?m = [] @ ?a # [] @ ?b # [?c, ?d, ?e]" by simp
  have n1: "lower (strip (title ?a)) \<noteq> lower (strip (title ?c))" by code_simp
  have n2: "lower (strip (title ?b)) \<noteq> lower (strip (title ?c))" by code_simp
  have h6: "tasks ?m = [?a, ?b] @ ?c # [?d, ?e]" by simp
  from n1 n2
  have h7: "\<forall>u \<in> set [?a, ?b]. lower (strip (title u)) \<noteq> lower (strip (title ?c))
                       \<or> lower (strip (description u)) \<noteq> lower (strip (description ?c))
                       \<or> expiry_date u \<noteq> expiry_date ?c"
    by simp
  from remove_duplicates_keeps_first
    [where m = ?m and a = ?a and b = ?b and xs = "[]" and ys = "[]" and zs = "[?c, ?d, ?e]"]
    h1 h2 h3 h4 h5
  have r: "remove_duplicates ?m =
      ([Remove_duplicate_tasks 1], None, ?m\<lparr>tasks := [] @ ?a # [] @ [?c, ?d, ?e]\<rparr>)"
    by blast
  from remove_duplicates_keeps_first
    [where m = ?m and xs = "[?a, ?b]" and t = ?c and ys = "[?d, ?e]"] h6 h7
  have kept: "?c \<in> set (tasks (snd (snd (remove_duplicates ?m))))"
    by blast
  from r have "?a \<in> set (tasks (snd (snd (remove_duplicates ?m))))"
    by simp
  with remove_duplicates_keeps_first [where m = ?m]
  have f: "find (\<lambda>u. lower (strip (title u)) = lower (strip (title ?a))
                  \<and> lower (strip (description u)) = lower (strip (description ?a))
                  \<and> expiry_date u = expiry_date ?a) (tasks ?m) = Some ?a"
    by blast
  from h1 h2 h3 h4 r n1 n2 kept f show ?thesis by simp
qed

section \<open>Deleting is all or nothing\<close>

declare delete_task_loop.simps [simp del]

lemma delete_task_loop_skip:
  "list_all (\<lambda>u. id_t u \<noteq> task_id) xs \<Longrightarrow> tasks m = pre @ xs @ rest \<Longrightarrow>
   delete_task_loop now task_id m (length pre) =
   delete_task_loop now task_id m (length pre + length xs)"
proof (induction xs arbitrary: pre)
  case Nil
  then show ?case by simp
next
  case (Cons x xs)
  from Cons.prems have ne: "id_t x \<noteq> task_id" and rest: "list_all (\<lambda>u. id_t u \<noteq> task_id) xs"
    by simp_all
  from Cons.prems have at: "tasks m ! length pre = x" and lt: "length pre < length (tasks m)"
    by simp_all
  have "delete_task_loop now task_id m (length pre) =
      delete_task_loop now task_id m (length pre + 1)"
    using ne at lt by (subst delete_task_loop.simps) simp
  also have "\<dots> = delete_task_loop now task_id m (length (pre @ [x]))"
    by simp
  also have "\<dots> = delete_task_loop now task_id m (length (pre @ [x]) + length xs)"
    using rest Cons.prems(2) by (intro Cons.IH) simp_all
  finally show ?case by simp
qed

lemma delete_task_loop_not_found:
  assumes "list_all (\<lambda>u. id_t u \<noteq> task_id) (tasks m)"
  shows "delete_task_loop now task_id m 0 = ([Task_ID_not_found], None, m)"
proof -
  have "delete_task_loop now task_id m 0 = delete_task_loop now task_id m (length (tasks m))"
    using delete_task_loop_skip[of task_id "tasks m" m "[]" "[]" now] assms by simp
  also have "\<dots> = ([Task_ID_not_found], None, m)"
    by (subst delete_task_loop.simps) simp
  finally show ?thesis .
qed

lemma delete_task_loop_found:
  assumes "tasks m = xs @ t # ys" and "list_all (\<lambda>u. id_t u \<noteq> task_id) xs"
    and "id_t t = task_id"
  shows "delete_task_loop now task_id m 0 =
     (case is_deletable now t of
        Inl e \<Rightarrow> ([], Some e, m)
      | Inr deletable \<Rightarrow>
          (if deletable
           then ([Task_deleted], None, save now (m\<lparr>tasks := xs @ ys\<rparr>))
           else ([Task_can_not_be_deleted_yet], None, m)))"
proof -
  have "delete_task_loop now task_id m 0 = delete_task_loop now task_id m (length xs)"
    using delete_task_loop_skip[of task_id xs m "[]" "t # ys" now] assms by simp
  also have "\<dots> = (case is_deletable now t of
        Inl e \<Rightarrow> ([], Some e, m)
      | Inr deletable \<Rightarrow>
          (if deletable
           then ([Task_deleted], None, save now (m\<lparr>tasks := xs @ ys\<rparr>))
           else ([Task_can_not_be_deleted_yet], None, m)))"
    using assms by (subst delete_task_loop.simps) (simp add: pop_def split: sum.splits)
  finally show ?thesis .
qed

text \<open>
  C10: \<open>delete_task\<close> is all or nothing. When no task has the id, or the first task
  with the id is not deletable yet, or asking whether it is deletable raises, the
  manager (task list and file) is returned as it was. When the first task with
  the id is deletable, exactly that task is taken out, the tasks before and after
  it keep their order, and the file is rewritten from the remaining list.
\<close>

theorem delete_task_atomic:
  "(list_all (\<lambda>u. id_t u \<noteq> task_id) (tasks m) \<longrightarrow>
      delete_task now (Some task_id) m =
        ([if tasks m = [] then No_tasks_to_delete else Task_ID_not_found], None, m))
   \<and> (tasks m = xs @ t # ys \<and> list_all (\<lambda>u. id_t u \<noteq> task_id) xs \<and> id_t t = task_id
        \<and> is_deletable now t = Inr False \<longrightarrow>
      delete_task now (Some task_id) m = ([Task_can_not_be_deleted_yet], None, m))
   \<and> (tasks m = xs @ t # ys \<and> list_all (\<lambda>u. id_t u \<noteq> task_id) xs \<and> id_t t = task_id
        \<and> is_deletable now t = Inr True \<longrightarrow>
      delete_task now (Some task_id) m =
        ([Task_deleted], None,
         m\<lparr>tasks := xs @ ys, tasks_json := Some (to_dict now (xs @ ys))\<rparr>))
   \<and> (tasks m = xs @ t # ys \<and> list_all (\<lambda>u. id_t u \<noteq> task_id) xs \<and> id_t t = task_id
        \<and> is_deletable now t = Inl e \<longrightarrow>
      delete_task now (Some task_id) m = ([], Some e, m))"
proof (intro conjI impI)
  assume "list_all (\<lambda>u. id_t u \<noteq> task_id) (tasks m)"
  then show "delete_task now (Some task_id) m =
        ([if tasks m = [] then No_tasks_to_delete else Task_ID_not_found], None, m)"
    by (simp add: delete_task_def delete_task_loop_not_found split: list.splits)
next
  assume h: "tasks m = xs @ t # ys \<and> list_all (\<lambda>u. id_t u \<noteq> task_id) xs \<and> id_t t = task_id
        \<and> is_deletable now t = Inr False"
  then have ne: "tasks m \<noteq> []" by auto
  from h have "delete_task_loop now task_id m 0 = ([Task_can_not_be_deleted_yet], None, m)"
    by (simp add: delete_task_loop_found[of m xs t ys task_id now])
  with ne show "delete_task now (Some task_id) m = ([Task_can_not_be_deleted_yet], None, m)"
    by (simp add: delete_task_def split: list.splits)
next
  assume h: "tasks m = xs @ t # ys \<and> list_all (\<lambda>u. id_t u \<noteq> task_id) xs \<and> id_t t = task_id
        \<and> is_deletable now t = Inr True"
  then have ne: "tasks m \<noteq> []" by auto
  from h have "delete_task_loop now task_id m 0 =
      ([Task_deleted], None, save now (m\<lparr>tasks := xs @ ys\<rparr>))"
    by (simp add: delete_task_loop_found[of m xs t ys task_id now])
  with ne show "delete_task now (Some task_id) m =
        ([Task_deleted], None,
         m\<lparr>tasks := xs @ ys, tasks_json := Some (to_dict now (xs @ ys))\<rparr>)"
    by (simp add: delete_task_def save_def split: list.splits)
next
  assume h: "tasks m = xs @ t # ys \<and> list_all (\<lambda>u. id_t u \<noteq> task_id) xs \<and> id_t t = task_id
        \<and> is_deletable now t = Inl e"
  then have ne: "tasks m \<noteq> []" by auto
  from h have "delete_task_loop now task_id m 0 = ([], Some e, m)"
    by (simp add: delete_task_loop_found[of m xs t ys task_id now])
  with ne show "delete_task now (Some task_id) m = ([], Some e, m)"
    by (simp add: delete_task_def split: list.splits)
qed

theorem delete_task_atomic_witness:
  "list_all (\<lambda>u. id_t u \<noteq> 7)
     (tasks \<lparr>tasks = [Task 1 ''A'' ''a'' 100 ''low'' [], Task 2 ''B'' ''b'' 100 ''low'' [],
                      Task 2 ''C'' ''c'' 100 ''low'' []], tasks_json = None\<rparr>)
   \<and> delete_task 200 (Some 7)
        \<lparr>tasks = [Task 1 ''A'' ''a'' 100 ''low'' [], Task 2 ''B'' ''b'' 100 ''low'' [],
                  Task 2 ''C'' ''c'' 100 ''low'' []], tasks_json = None\<rparr>
      = ([Task_ID_not_found], None,
         \<lparr>tasks = [Task 1 ''A'' ''a'' 100 ''low'' [], Task 2 ''B'' ''b'' 100 ''low'' [],
                   Task 2 ''C'' ''c'' 100 ''low'' []], tasks_json = None\<rparr>)
   \<and> list_all (\<lambda>u. id_t u \<noteq> 2) [Task 1 ''A'' ''a'' 100 ''low'' []]
   \<and> id_t (Task 2 ''B'' ''b'' 100 ''low'' []) = 2
   \<and> is_deletable 200 (Task 2 ''B'' ''b'' 100 ''low'' []) = Inr False
   \<and> delete_task 200 (Some 2)
        \<lparr>tasks = [Task 1 ''A'' ''a'' 100 ''low'' [], Task 2 ''B'' ''b'' 100 ''low'' [],
                  Task 2 ''C'' ''c'' 100 ''low'' []], tasks_json = None\<rparr>
      = ([Task_can_not_be_deleted_yet], None,
         \<lparr>tasks = [Task 1 ''A'' ''a'' 100 ''low'' [], Task 2 ''B'' ''b'' 100 ''low'' [],
                   Task 2 ''C'' ''c'' 100 ''low'' []], tasks_json = None\<rparr>)
   \<and> is_deletable 300000101 (Task 2 ''B'' ''b'' 100 ''low'' []) = Inr True
   \<and> delete_task 300000101 (Some 2)
        \<lparr>tasks = [Task 1 ''A'' ''a'' 100 ''low'' [], Task 2 ''B'' ''b'' 100 ''low'' [],
                  Task 2 ''C'' ''c'' 100 ''low'' []], tasks_json = None\<rparr>
      = ([Task_deleted], None,
         \<lparr>tasks = [Task 1 ''A'' ''a'' 100 ''low'' [], Task 2 ''C'' ''c'' 100 ''low'' []],
          tasks_json = Some (to_dict 300000101
            [Task 1 ''A'' ''a'' 100 ''low'' [], Task 2 ''C'' ''c'' 100 ''low'' []])\<rparr>)
   \<and> id_t (Task 2 ''D'' ''d'' 315537897480000000 ''low'' []) = 2
   \<and> is_deletable 300000101 (Task 2 ''D'' ''d'' 315537897480000000 ''low'' [])
        = Inl OverflowError
   \<and> delete_task 300000101 (Some 2)
        \<lparr>tasks = [Task 1 ''A'' ''a'' 100 ''low'' [],
                  Task 2 ''D'' ''d'' 315537897480000000 ''low'' []], tasks_json = None\<rparr>
      = ([], Some OverflowError,
         \<lparr>tasks = [Task 1 ''A'' ''a'' 100 ''low'' [],
                   Task 2 ''D'' ''d'' 315537897480000000 ''low'' []], tasks_json = None\<rparr>)"
proof -
  let ?a = "Task 1 ''A'' ''a'' 100 ''low'' []"
  let ?b = "Task 2 ''B'' ''b'' 100 ''low'' []"
  let ?c = "Task 2 ''C'' ''c'' 100 ''low'' []"
  let ?d = "Task 2 ''D'' ''d'' 315537897480000000 ''low'' []"
  let ?m = "\<lparr>tasks = [?a, ?b, ?c], tasks_json = None\<rparr>"
  let ?n = "\<lparr>tasks = [?a, ?d], tasks_json = None\<rparr>"
  have h1: "list_all (\<lambda>u. id_t u \<noteq> 7) (tasks ?m)" by (simp add: Task_def)
  have h2: "tasks ?m = [?a] @ ?b # [?c]" by simp
  have h3: "list_all (\<lambda>u. id_t u \<noteq> 2) [?a]" by (simp add: Task_def)
  have h4: "id_t ?b = 2" by (simp add: Task_def)
  have h5: "is_deletable 200 ?b = Inr False"
    by (simp add: Task_def is_deletable_def datetime_add_def datetime_min_def
        datetime_max_def timedelta_minutes_def)
  have h6: "is_deletable 300000101 ?b = Inr True"
    by (simp add: Task_def is_deletable_def datetime_add_def datetime_min_def
        datetime_max_def timedelta_minutes_def)
  have h7: "tasks ?n = [?a] @ ?d # []" by simp
  have h8: "id_t ?d = 2" by (simp add: Task_def)
  have h9: "is_deletable 300000101 ?d = Inl OverflowError"
    by (simp add: Task_def is_deletable_def datetime_add_def datetime_min_def
        datetime_max_def timedelta_minutes_def)
  from delete_task_atomic [where task_id = 7 and m = ?m and now = 200] h1
  have r1: "delete_task 200 (Some 7) ?m = ([Task_ID_not_found], None, ?m)"
    by simp
  from delete_task_atomic [where task_id = 2 and m = ?m and xs = "[?a]" and t = ?b
      and ys = "[?c]" and now = 200] h2 h3 h4 h5
  have r2: "delete_task 200 (Some 2) ?m = ([Task_can_not_be_deleted_yet], None, ?m)"
    by blast
  from delete_task_atomic [where task_id = 2 and m = ?m and xs = "[?a]" and t = ?b
      and ys = "[?c]" and now = 300000101] h2 h3 h4 h6
  have r3: "delete_task 300000101 (Some 2) ?m =
      ([Task_deleted], None,
       ?m\<lparr>tasks := [?a] @ [?c], tasks_json := Some (to_dict 300000101 ([?a] @ [?c]))\<rparr>)"
    by blast
  from delete_task_atomic [where task_id = 2 and m = ?n and xs = "[?a]" and t = ?d
      and ys = "[]" and now = 300000101 and e = OverflowError] h7 h3 h8 h9
  have r4: "delete_task 300000101 (Some 2) ?n = ([], Some OverflowError, ?n)"
    by blast
  from h1 h3 h4 h5 h6 h8 h9 r1 r2 r3 r4 show ?thesis by simp
qed

section \<open>The operations evaluated where they leave the specification\<close>

text \<open>
  C1, evaluated on the code: saving a store of two tasks and loading the document
  gives four tasks (each of the two, twice), not the two that were saved. The
  fields of each task read back as written; \<open>created_date\<close>, which neither task
  had, reads back as the time of the save.
\<close>

theorem load_save_two_tasks:
  "load 7 (save 7
      \<lparr>tasks = [Task 1 ''A'' ''a'' 100 ''low'' [\<lparr>text_b = ''x'', done_b = False\<rparr>],
                Task 2 ''B'' ''b'' 200 ''high'' [\<lparr>text_b = ''y'', done_b = False\<rparr>]],
       tasks_json = None\<rparr>)
     = [(Task 1 ''A'' ''a'' 100 ''low'' [\<lparr>text_b = ''x'', done_b = False\<rparr>])
          \<lparr>created_date := Some 7\<rparr>,
        (Task 2 ''B'' ''b'' 200 ''high'' [\<lparr>text_b = ''y'', done_b = False\<rparr>])
          \<lparr>created_date := Some 7\<rparr>,
        (Task 1 ''A'' ''a'' 100 ''low'' [\<lparr>text_b = ''x'', done_b = False\<rparr>])
          \<lparr>created_date := Some 7\<rparr>,
        (Task 2 ''B'' ''b'' 200 ''high'' [\<lparr>text_b = ''y'', done_b = False\<rparr>])
          \<lparr>created_date := Some 7\<rparr>]
   \<and> length (load 7 (save 7
        \<lparr>tasks = [Task 1 ''A'' ''a'' 100 ''low'' [\<lparr>text_b = ''x'', done_b = False\<rparr>],
                  Task 2 ''B'' ''b'' 200 ''high'' [\<lparr>text_b = ''y'', done_b = False\<rparr>]],
         tasks_json = None\<rparr>)) = 4"
  by (simp add: load_def save_def from_dict_def to_dict_def task_of_dict_def Task_def
      dict_get_def isoformat_def)

text \<open>
  C2, evaluated on the code: an add request with two bullets appends two tasks
  (ids 1 and 2, both holding both bullets), an add request with no bullet appends
  none, and in both cases the file is not written.
\<close>

theorem add_task_two_bullets:
  "add_task ''A'' ''d'' ''low'' (Some 100) [''x'', ''y'', []] \<lparr>tasks = [], tasks_json = None\<rparr>
     = ([Task_added, Task_added], None,
        \<lparr>tasks = [Task 1 ''A'' ''d'' 100 ''low''
                    [\<lparr>text_b = ''x'', done_b = False\<rparr>, \<lparr>text_b = ''y'', done_b = False\<rparr>],
                  Task 2 ''A'' ''d'' 100 ''low''
                    [\<lparr>text_b = ''x'', done_b = False\<rparr>, \<lparr>text_b = ''y'', done_b = False\<rparr>]],
         tasks_json = None\<rparr>)
   \<and> add_task ''A'' ''d'' ''low'' (Some 100) [[]] \<lparr>tasks = [], tasks_json = None\<rparr>
     = ([], None, \<lparr>tasks = [], tasks_json = None\<rparr>)"
  by (simp add: add_task_def get_next_id_def Task_def Let_def)

text \<open>
  C3, evaluated on the code: editing an unlocked task changes its title and
  description and leaves \<open>expiry_date\<close> at its old value 100; the new expiry 999 is
  stored in the attribute \<open>expiry_update\<close>. When the typed expiry does not parse
  under the format of the source, title and description are changed in memory,
  ValueError leaves the function and the file is not written.
\<close>

theorem edit_task_expiry_unchanged:
  "edit_task 50 (Some 1) ''T2'' ''D2'' (Some 999)
     \<lparr>tasks = [Task 1 ''T'' ''D'' 100 ''low'' [\<lparr>text_b = ''x'', done_b = False\<rparr>]],
      tasks_json = None\<rparr>
   = ([Task_updated], None,
      \<lparr>tasks = [\<lparr>id_t = 1, title = ''T2'', description = ''D2'', expiry_date = 100,
                  priority = ''low'', bullets = [\<lparr>text_b = ''x'', done_b = False\<rparr>],
                  status = ''in progress...'', created_date = None,
                  expiry_update = Some 999\<rparr>],
       tasks_json = Some [\<lparr>k_id = Some 1, k_title = Some ''T2'', k_description = Some ''D2'',
                  k_created_date = Some (Iso 50), k_expiry_date = Some (Iso 100),
                  k_priority = Some ''low'', k_status = Some ''in progress...'',
                  k_bullets = Some [\<lparr>text_b = ''x'', done_b = False\<rparr>]\<rparr>]\<rparr>)
   \<and> edit_task 50 (Some 1) ''T2'' ''D2'' None
     \<lparr>tasks = [Task 1 ''T'' ''D'' 100 ''low'' [\<lparr>text_b = ''x'', done_b = False\<rparr>]],
      tasks_json = None\<rparr>
   = ([], Some ValueError,
      \<lparr>tasks = [\<lparr>id_t = 1, title = ''T2'', description = ''D2'', expiry_date = 100,
                  priority = ''low'', bullets = [\<lparr>text_b = ''x'', done_b = False\<rparr>],
                  status = ''in progress...'', created_date = None,
                  expiry_update = None\<rparr>],
       tasks_json = None\<rparr>)"
  by (simp add: edit_task_def update_status_def is_expired_def lock_check_def Task_def
      save_def to_dict_def dict_get_def isoformat_def)

text \<open>
  C7, evaluated on the code: for a task whose status is \<open>expired\<close>, so that
  \<open>lock_check\<close> is true, \<open>complete_bullet\<close> with the task's id prints nothing and
  returns; the line "Task is locked." is not printed. The manager is unchanged.
\<close>

theorem complete_bullet_locked_task:
  "lock_check ((Task 1 ''A'' ''d'' 100 ''low'' [\<lparr>text_b = ''x'', done_b = False\<rparr>])
                 \<lparr>status := ''expired''\<rparr>)
   \<and> complete_bullet (Some 1)
       \<lparr>tasks = [(Task 1 ''A'' ''d'' 100 ''low'' [\<lparr>text_b = ''x'', done_b = False\<rparr>])
                   \<lparr>status := ''expired''\<rparr>],
        tasks_json = None\<rparr>
     = ([], None,
        \<lparr>tasks = [(Task 1 ''A'' ''d'' 100 ''low'' [\<lparr>text_b = ''x'', done_b = False\<rparr>])
                    \<lparr>status := ''expired''\<rparr>],
         tasks_json = None\<rparr>)"
  by (simp add: complete_bullet_def lock_check_def)

section \<open>Further properties of the operations\<close>

lemma from_dict_inner_map:
  "from_dict_inner now ds acc = acc @ map (task_of_dict now) ds"
  by (induction ds arbitrary: acc) simp_all

lemma from_dict_outer_concat:
  "from_dict_outer now ds data acc =
     acc @ concat (replicate (length ds) (map (task_of_dict now) data))"
  by (induction ds arbitrary: acc) (simp_all add: from_dict_inner_map)

lemma task_of_dict_to_dict:
  "map (task_of_dict now') (to_dict now ts) = map (reloaded now) ts"
  by (simp add: to_dict_def task_of_dict_def Task_def dict_get_def isoformat_def reloaded_def
      split: option.splits)

lemma from_dict_concat:
  "from_dict now data = concat (replicate (length data) (map (task_of_dict now) data))"
  by (simp add: from_dict_def from_dict_outer_concat)

lemma length_concat_replicate: "length (concat (replicate n xs)) = n * length xs"
  by (induction n) simp_all

lemma length_to_dict: "length (to_dict now ts) = length ts"
  by (simp add: to_dict_def)

text \<open>
  \<open>from_dict\<close> returns the decoded objects of the document once per object of
  the document, so a document of n objects loads as n * n tasks.
\<close>

theorem from_dict_repeats:
  "from_dict now data = concat (replicate (length data) (map (task_of_dict now) data))
   \<and> length (from_dict now data) = length data * length data"
  by (simp add: from_dict_concat length_concat_replicate)

text \<open>
  A store of one task reads back from its saved document as that task, with
  \<open>created_date\<close> resolved (to the time of the save when the task had none) and
  without the attribute \<open>expiry_update\<close>, which is not written.
\<close>

theorem load_save_single_task:
  "load now' (save now \<lparr>tasks = [t], tasks_json = content\<rparr>) = [reloaded now t]"
  using task_of_dict_to_dict[of now' now "[t]"]
  by (simp add: load_def save_def from_dict_def from_dict_inner_map to_dict_def)

lemma task_hash_reloaded: "task_hash (reloaded now t) = task_hash t"
  by (simp add: task_hash_def reloaded_def)

lemma first_per_key_replicate:
  "first_per_key key (concat (replicate (Suc n) xs)) = first_per_key key xs"
proof -
  have "filter (\<lambda>u. key u \<notin> key ` set xs) (concat (replicate n xs)) = []"
    by (induction n) (auto simp: filter_empty_conv)
  then show ?thesis
    by (simp add: first_per_key_append)
qed

text \<open>
  Starting the manager on the saved document of a store whose dedup keys are
  pairwise different gives that store back, each task as it reads back from a
  document: the deduplication of the constructor drops the copies \<open>from_dict\<close>
  made, reports them as duplicates, and leaves the file as it was.
\<close>

theorem TaskManager_after_save:
  "distinct (map task_hash ts) \<Longrightarrow>
   TaskManager now' (Some (to_dict now ts)) =
     ((if length ts * length ts \<noteq> length ts
       then [Remove_duplicate_tasks (length ts * length ts - length ts)] else []),
      None,
      \<lparr>tasks = map (reloaded now) ts, tasks_json = Some (to_dict now ts)\<rparr>)"
proof -
  assume d: "distinct (map task_hash ts)"
  let ?xs = "map (reloaded now) ts"
  let ?l = "load now' \<lparr>tasks = [], tasks_json = Some (to_dict now ts)\<rparr>"
  have "?l = from_dict now' (to_dict now ts)"
    by (simp add: load_def)
  also have "\<dots> = concat (replicate (length (to_dict now ts))
      (map (task_of_dict now') (to_dict now ts)))"
    by (rule from_dict_concat)
  also have "\<dots> = concat (replicate (length ts) ?xs)"
    by (simp only: length_to_dict task_of_dict_to_dict)
  finally have ld: "?l = concat (replicate (length ts) ?xs)" .
  have len: "length ?l = length ts * length ts"
    by (simp only: ld length_concat_replicate length_map)
  have "map task_hash ?xs = map task_hash ts"
    by (induction ts) (simp_all add: task_hash_reloaded)
  with d have dx: "distinct (map task_hash ?xs)" by (simp only:)
  have fpk: "first_per_key task_hash ?l = ?xs"
  proof (cases ts)
    case Nil
    have "first_per_key task_hash ?l =
        first_per_key task_hash (concat (replicate (length ts) ?xs))"
      by (simp only: ld)
    also from Nil have "\<dots> = ?xs" by simp
    finally show ?thesis .
  next
    case (Cons t rest)
    then have "length ts = Suc (length rest)" by simp
    then have "first_per_key task_hash ?l = first_per_key task_hash ?xs"
      by (simp only: ld first_per_key_replicate)
    with dx show ?thesis by (simp only: first_per_key_distinct)
  qed
  have "TaskManager now' (Some (to_dict now ts)) =
      remove_duplicates \<lparr>tasks = ?l, tasks_json = Some (to_dict now ts)\<rparr>"
    by (simp only: TaskManager_def)
  also have "\<dots> = ((if length ?xs \<noteq> length ?l
       then [Remove_duplicate_tasks (length ?l - length ?xs)] else []),
      None, \<lparr>tasks = ?xs, tasks_json = Some (to_dict now ts)\<rparr>)"
    by (simp only: remove_duplicates_first_per_key manager.simps fpk)
  also have "\<dots> = ((if length ts * length ts \<noteq> length ts
       then [Remove_duplicate_tasks (length ts * length ts - length ts)] else []),
      None,
      \<lparr>tasks = ?xs, tasks_json = Some (to_dict now ts)\<rparr>)"
    by (simp only: len length_map) auto
  finally show ?thesis .
qed

lemma expiry_date_update_status [simp]:
  "expiry_date (update_status now t) = expiry_date t"
  by (simp add: update_status_def Let_def)

lemma id_t_update_status [simp]: "id_t (update_status now t) = id_t t"
  by (simp add: update_status_def Let_def)

lemma edit_task_loop_expiry:
  "map expiry_date (tasks (snd (snd (edit_task_loop now task_id nt nd ne m seen rest)))) =
   map expiry_date (seen @ rest)"
  by (induction rest arbitrary: seen) (auto simp: Let_def save_def split: option.splits)

text \<open>
  Whatever the inputs and the outcome, \<open>edit_task\<close> leaves the expiry date of
  every task of the store as it was.
\<close>

theorem edit_task_keeps_expiry_date:
  "map expiry_date (tasks (snd (snd (edit_task now typed_id nt nd ne m)))) =
   map expiry_date (tasks m)"
  by (cases typed_id) (simp_all add: edit_task_def edit_task_loop_expiry)

lemma edit_task_loop_skip:
  "list_all (\<lambda>u. id_t u \<noteq> task_id) xs \<Longrightarrow>
   edit_task_loop now task_id nt nd ne m seen (xs @ rest) =
   edit_task_loop now task_id nt nd ne m (seen @ map (update_status now) xs) rest"
  by (induction xs arbitrary: seen) (simp_all add: Let_def)

text \<open>
  \<open>lock_check\<close> is true exactly for the statuses \<open>completed\<close> and \<open>expired\<close>;
  and when the first task with the requested id is locked after its status is
  recomputed, \<open>edit_task\<close> prints "Task is locked.", writes nothing to the file,
  and changes nothing in the store but the recomputed status of that task and of
  the tasks before it.
\<close>

theorem edit_task_locked:
  "lock_check t = (status t = ''completed'' \<or> status t = ''expired'')
   \<and> (tasks m = xs @ t # ys \<and> list_all (\<lambda>u. id_t u \<noteq> task_id) xs \<and> id_t t = task_id
        \<and> lock_check (update_status now t) \<longrightarrow>
      edit_task now (Some task_id) nt nd ne m =
        ([Task_is_locked], None,
         m\<lparr>tasks := map (update_status now) xs @ update_status now t # ys\<rparr>))"
proof (intro conjI impI)
  show "lock_check t = (status t = ''completed'' \<or> status t = ''expired'')"
    by (simp add: lock_check_def)
next
  assume h: "tasks m = xs @ t # ys \<and> list_all (\<lambda>u. id_t u \<noteq> task_id) xs \<and> id_t t = task_id
        \<and> lock_check (update_status now t)"
  then have "edit_task now (Some task_id) nt nd ne m =
      edit_task_loop now task_id nt nd ne m ([] @ map (update_status now) xs) (t # ys)"
    by (simp only: edit_task_def option.case edit_task_loop_skip)
  also from h have "\<dots> = ([Task_is_locked], None,
         m\<lparr>tasks := map (update_status now) xs @ update_status now t # ys\<rparr>)"
    by (simp add: Let_def)
  finally show "edit_task now (Some task_id) nt nd ne m =
        ([Task_is_locked], None,
         m\<lparr>tasks := map (update_status now) xs @ update_status now t # ys\<rparr>)" .
qed

theorem TaskManager_after_save_witness:
  "distinct (map task_hash [Task 1 ''A'' ''a'' 100 ''low'' [], Task 2 ''B'' ''b'' 200 ''high'' []])
   \<and> TaskManager 9 (Some (to_dict 7
         [Task 1 ''A'' ''a'' 100 ''low'' [], Task 2 ''B'' ''b'' 200 ''high'' []]))
     = ([Remove_duplicate_tasks 2], None,
        \<lparr>tasks = [(Task 1 ''A'' ''a'' 100 ''low'' [])\<lparr>created_date := Some 7\<rparr>,
                  (Task 2 ''B'' ''b'' 200 ''high'' [])\<lparr>created_date := Some 7\<rparr>],
         tasks_json = Some (to_dict 7
           [Task 1 ''A'' ''a'' 100 ''low'' [], Task 2 ''B'' ''b'' 200 ''high'' []])\<rparr>)"
proof -
  let ?ts = "[Task 1 ''A'' ''a'' 100 ''low'' [], Task 2 ''B'' ''b'' 200 ''high'' []]"
  have d: "distinct (map task_hash ?ts)" by code_simp
  from TaskManager_after_save [OF d, of 9 7] d show ?thesis
    by (simp add: reloaded_def dict_get_def Task_def)
qed

theorem edit_task_locked_witness:
  "list_all (\<lambda>u. id_t u \<noteq> 2) [Task 1 ''A'' ''a'' 100 ''low'' []]
   \<and> id_t (Task 2 ''B'' ''b'' 100 ''low'' [\<lparr>text_b = ''x'', done_b = False\<rparr>]) = 2
   \<and> lock_check (update_status 101 (Task 2 ''B'' ''b'' 100 ''low'' [\<lparr>text_b = ''x'', done_b = False\<rparr>]))
   \<and> edit_task 101 (Some 2) ''T'' ''D'' (Some 999)
        \<lparr>tasks = [Task 1 ''A'' ''a'' 100 ''low'' [],
                  Task 2 ''B'' ''b'' 100 ''low'' [\<lparr>text_b = ''x'', done_b = False\<rparr>]],
         tasks_json = None\<rparr>
      = ([Task_is_locked], None,
         \<lparr>tasks = [(Task 1 ''A'' ''a'' 100 ''low'' [])\<lparr>status := ''expired''\<rparr>,
                   (Task 2 ''B'' ''b'' 100 ''low'' [\<lparr>text_b = ''x'', done_b = False\<rparr>])
                     \<lparr>status := ''expired''\<rparr>],
          tasks_json = None\<rparr>)"
proof -
  let ?a = "Task 1 ''A'' ''a'' 100 ''low'' []"
  let ?b = "Task 2 ''B'' ''b'' 100 ''low'' [\<lparr>text_b = ''x'', done_b = False\<rparr>]"
  let ?m = "\<lparr>tasks = [?a, ?b], tasks_json = None\<rparr>"
  have h1: "tasks ?m = [?a] @ ?b # []" by simp
  have h2: "list_all (\<lambda>u. id_t u \<noteq> 2) [?a]" by (simp add: Task_def)
  have h3: "id_t ?b = 2" by (simp add: Task_def)
  have h4: "lock_check (update_status 101 ?b)"
    by (simp add: lock_check_def update_status_def is_expired_def Task_def)
  from edit_task_locked [where m = ?m and xs = "[?a]" and t = ?b and ys = "[]"
      and task_id = 2 and now = 101 and nt = "''T''" and nd = "''D''" and ne = "Some 999"]
    h1 h2 h3 h4
  have r: "edit_task 101 (Some 2) ''T'' ''D'' (Some 999) ?m =
      ([Task_is_locked], None,
       ?m\<lparr>tasks := map (update_status 101) [?a] @ update_status 101 ?b # []\<rparr>)"
    by blast
  from h2 h3 h4 r show ?thesis
    by (simp add: update_status_def is_expired_def Task_def)
qed

lemma py_max_Max: "py_max xs dflt = Max (set xs)" if "xs \<noteq> []"
proof (cases xs)
  case Nil
  then show ?thesis using that by simp
next
  case (Cons x rest)
  have "Max (set (x # rest)) = fold max rest x"
    by (rule Max.set_eq_fold)
  with Cons show ?thesis by (simp only: py_max.simps)
qed

text \<open>
  \<open>get_next_id\<close> is 1 on the empty store and otherwise one more than the
  largest id in the store.
\<close>

theorem get_next_id_max:
  "get_next_id ts = (if ts = [] then 1 else Max (id_t ` set ts) + 1)"
  by (simp add: get_next_id_def py_max_Max)

lemma add_task_loop_tasks:
  "length (snd (snd (add_task_loop ttl desc e prio inputs bs old new out))) =
     length old + length new + length (takeWhile (\<lambda>s. s \<noteq> []) inputs)
   \<and> take (length old) (snd (snd (add_task_loop ttl desc e prio inputs bs old new out))) = old"
  by (induction inputs arbitrary: bs new out) (simp_all add: Let_def)

text \<open>
  \<open>add_task\<close> appends one task for every bullet typed before the empty line,
  after the tasks that were in the store, and never writes the file.
\<close>

theorem add_task_one_task_per_bullet:
  "length (tasks (snd (snd (add_task ttl desc prio (Some e) inputs m)))) =
     length (tasks m) + length (takeWhile (\<lambda>s. s \<noteq> []) inputs)
   \<and> take (length (tasks m)) (tasks (snd (snd (add_task ttl desc prio (Some e) inputs m))))
       = tasks m
   \<and> tasks_json (snd (snd (add_task ttl desc prio expiry inputs m))) = tasks_json m"
proof -
  obtain out err ts where l: "add_task_loop ttl desc e prio inputs [] (tasks m) [] [] = (out, err, ts)"
    by (cases "add_task_loop ttl desc e prio inputs [] (tasks m) [] []") auto
  from add_task_loop_tasks[of ttl desc e prio inputs "[]" "tasks m" "[]" "[]"] l
  have "length ts = length (tasks m) + length (takeWhile (\<lambda>s. s \<noteq> []) inputs)"
    and "take (length (tasks m)) ts = tasks m"
    by simp_all
  moreover have "tasks_json (snd (snd (add_task ttl desc prio expiry inputs m))) = tasks_json m"
    by (cases expiry) (auto simp: add_task_def split: prod.splits)
  ultimately show ?thesis
    by (simp add: add_task_def l)
qed

end
